theory Spec2Isabelle
  imports Main "HOL-Library.Word"
begin

section \<open>JavaScript strings and JSON values\<close>

text \<open>
  A JavaScript string is a sequence of 16-bit code units. The state container of
  \<^verbatim>\<open>src/index.tsx\<close> passes such strings to \<^verbatim>\<open>JSON.stringify\<close>, \<^verbatim>\<open>JSON.parse\<close> and
  \<^verbatim>\<open>localStorage\<close>; these three belong to the browser, and are modelled here after
  ECMA-262 (clauses 25.5.1 and 25.5.2) and the Web Storage interface.
\<close>

type_synonym code_unit = "16 word"
type_synonym jsstring = "code_unit list"

definition ascii :: "string \<Rightarrow> jsstring" where
  "ascii s = map of_char s"

text \<open>
  The values \<^verbatim>\<open>JSON.parse\<close> can return. A number is kept as the exact decimal value
  of its literal, \<open>JNum m e\<close> standing for \<open>m * 10 ^ e\<close>; the runtime rounds it to the
  nearest double. The members of an object are kept as they are written in the text,
  a repeated key included; reading a property takes its last member.
\<close>

datatype json =
    JNull
  | JBool bool
  | JNum int int
  | JStr jsstring
  | JArr "json list"
  | JObj "(jsstring \<times> json) list"

text \<open>
  \<^verbatim>\<open>ToBoolean\<close>, which decides \<^verbatim>\<open>if (user)\<close>, \<^verbatim>\<open>!user\<close> and \<^verbatim>\<open>user ? a : b\<close>. A number
  is falsy when its double is zero: the literal's value is zero, or it is at most
  \<open>2 ^ -1075\<close> in magnitude, half of the least positive double, and rounds to zero.
\<close>

definition rounds_to_zero :: "int \<Rightarrow> int \<Rightarrow> bool" where
  "rounds_to_zero m e =
     (m = 0 \<or> (e < 0 \<and> \<bar>m\<bar> * 2 ^ 1075 \<le> 10 ^ nat (- e)))"

fun truthy :: "json \<Rightarrow> bool" where
  "truthy JNull = False"
| "truthy (JBool b) = b"
| "truthy (JNum m e) = (\<not> rounds_to_zero m e)"
| "truthy (JStr s) = (s \<noteq> [])"
| "truthy (JArr vs) = True"
| "truthy (JObj ms) = True"

subsection \<open>JSON.stringify\<close>

text \<open>
  \<^verbatim>\<open>QuoteJSONString\<close>: the string between double quotes, with the quote, the backslash
  and the control characters escaped, and a surrogate code unit that is not part of a
  pair written as a \<^verbatim>\<open>\u\<close> escape with lower-case hexadecimal digits.
\<close>

definition hex_digit :: "nat \<Rightarrow> code_unit" where
  "hex_digit n = (if n < 10 then of_nat (48 + n) else of_nat (87 + n))"

definition UnicodeEscape :: "code_unit \<Rightarrow> jsstring" where
  "UnicodeEscape c =
     [0x5C, 0x75,
      hex_digit (unat c div 4096), hex_digit (unat c div 256 mod 16),
      hex_digit (unat c div 16 mod 16), hex_digit (unat c mod 16)]"

definition is_leading_surrogate :: "code_unit \<Rightarrow> bool" where
  "is_leading_surrogate c = (0xD800 \<le> c \<and> c \<le> 0xDBFF)"

definition is_trailing_surrogate :: "code_unit \<Rightarrow> bool" where
  "is_trailing_surrogate c = (0xDC00 \<le> c \<and> c \<le> 0xDFFF)"

definition escape_unit :: "code_unit \<Rightarrow> jsstring" where
  "escape_unit c =
     (if c = 0x08 then [0x5C, 0x62]
      else if c = 0x09 then [0x5C, 0x74]
      else if c = 0x0A then [0x5C, 0x6E]
      else if c = 0x0C then [0x5C, 0x66]
      else if c = 0x0D then [0x5C, 0x72]
      else if c = 0x22 then [0x5C, 0x22]
      else if c = 0x5C then [0x5C, 0x5C]
      else if c < 0x20 \<or> is_leading_surrogate c \<or> is_trailing_surrogate c
        then UnicodeEscape c
      else [c])"

fun quote_units :: "jsstring \<Rightarrow> jsstring" where
  "quote_units [] = []"
| "quote_units [c] = escape_unit c"
| "quote_units (c # d # cs) =
     (if is_leading_surrogate c \<and> is_trailing_surrogate d
      then c # d # quote_units cs
      else escape_unit c @ quote_units (d # cs))"

definition QuoteJSONString :: "jsstring \<Rightarrow> jsstring" where
  "QuoteJSONString s = [0x22] @ quote_units s @ [0x22]"

text \<open>
  \<^verbatim>\<open>JSON.stringify\<close> on an object whose own properties all hold strings, which is what
  \<^verbatim>\<open>login\<close> and \<^verbatim>\<open>signup\<close> serialise (\<^verbatim>\<open>newUser = { email }\<close>): the members in property
  order, separated by commas, between braces, with no white space. \<open>object_of\<close> is
  the same object as a value.
\<close>

fun stringify_members :: "(jsstring \<times> jsstring) list \<Rightarrow> jsstring" where
  "stringify_members [] = []"
| "stringify_members [(k, v)] = QuoteJSONString k @ [0x3A] @ QuoteJSONString v"
| "stringify_members ((k, v) # p # ps) =
     QuoteJSONString k @ [0x3A] @ QuoteJSONString v @ [0x2C] @ stringify_members (p # ps)"

definition JSON_stringify :: "(jsstring \<times> jsstring) list \<Rightarrow> jsstring" where
  "JSON_stringify props = [0x7B] @ stringify_members props @ [0x7D]"

definition object_of :: "(jsstring \<times> jsstring) list \<Rightarrow> json" where
  "object_of props = JObj (map (\<lambda>(k, v). (k, JStr v)) props)"

subsection \<open>JSON.parse\<close>

text \<open>
  The JSON grammar of ECMA-262: white space is tab, line feed, carriage return and
  space; a string holds any code unit from \<open>0x20\<close> on except the quote and the
  backslash, and the escapes \<^verbatim>\<open>\" \\ \/ \b \f \n \r \t\<close> and \<^verbatim>\<open>\uXXXX\<close> with digits of
  either case; a number is an optional minus sign, \<^verbatim>\<open>0\<close> or a digit sequence with no
  leading zero, an optional fraction and an optional exponent. Each parser returns the
  value read and the rest of the input, or \<open>None\<close> where the text is not JSON and
  \<^verbatim>\<open>JSON.parse\<close> throws a \<^verbatim>\<open>SyntaxError\<close>.
\<close>

definition is_ws :: "code_unit \<Rightarrow> bool" where
  "is_ws c = (c = 0x09 \<or> c = 0x0A \<or> c = 0x0D \<or> c = 0x20)"

definition skip_ws :: "jsstring \<Rightarrow> jsstring" where
  "skip_ws cs = dropWhile is_ws cs"

definition is_digit :: "code_unit \<Rightarrow> bool" where
  "is_digit c = (0x30 \<le> c \<and> c \<le> 0x39)"

definition hex_value :: "code_unit \<Rightarrow> nat option" where
  "hex_value c =
     (if 0x30 \<le> c \<and> c \<le> 0x39 then Some (unat c - 48)
      else if 0x41 \<le> c \<and> c \<le> 0x46 then Some (unat c - 55)
      else if 0x61 \<le> c \<and> c \<le> 0x66 then Some (unat c - 87)
      else None)"

definition hex4 :: "code_unit \<Rightarrow> code_unit \<Rightarrow> code_unit \<Rightarrow> code_unit \<Rightarrow> code_unit option" where
  "hex4 a b c d =
     (case (hex_value a, hex_value b, hex_value c, hex_value d) of
        (Some x, Some y, Some z, Some u) \<Rightarrow> Some (of_nat (((x * 16 + y) * 16 + z) * 16 + u))
      | _ \<Rightarrow> None)"

definition unescape :: "code_unit \<Rightarrow> code_unit option" where
  "unescape c =
     (if c = 0x22 then Some 0x22
      else if c = 0x5C then Some 0x5C
      else if c = 0x2F then Some 0x2F
      else if c = 0x62 then Some 0x08
      else if c = 0x66 then Some 0x0C
      else if c = 0x6E then Some 0x0A
      else if c = 0x72 then Some 0x0D
      else if c = 0x74 then Some 0x09
      else None)"

definition consume :: "'a \<Rightarrow> ('a list \<times> 'b) option \<Rightarrow> ('a list \<times> 'b) option" where
  "consume x p = (case p of None \<Rightarrow> None | Some (xs, r) \<Rightarrow> Some (x # xs, r))"

fun parse_chars :: "jsstring \<Rightarrow> (jsstring \<times> jsstring) option" where
  "parse_chars [] = None"
| "parse_chars (c # cs) =
     (if c = 0x22 then Some ([], cs)
      else if c = 0x5C then
        (case cs of
           [] \<Rightarrow> None
         | x # r \<Rightarrow>
             if x = 0x75 then
               (case r of
                  h1 # h2 # h3 # h4 # r' \<Rightarrow>
                    (case hex4 h1 h2 h3 h4 of
                       None \<Rightarrow> None
                     | Some u \<Rightarrow> consume u (parse_chars r'))
                | _ \<Rightarrow> None)
             else
               (case unescape x of
                  None \<Rightarrow> None
                | Some u \<Rightarrow> consume u (parse_chars r)))
      else if c < 0x20 then None
      else consume c (parse_chars cs))"


fun strip_prefix :: "'a list \<Rightarrow> 'a list \<Rightarrow> 'a list option" where
  "strip_prefix [] ys = Some ys"
| "strip_prefix (x # xs) [] = None"
| "strip_prefix (x # xs) (y # ys) = (if x = y then strip_prefix xs ys else None)"

text \<open>
  A number, read in four steps: the sign, the integer part, the fraction and the
  exponent. The value is the digits of the integer part and the fraction as one
  integer, scaled by the exponent less the length of the fraction.
\<close>

definition digits_value :: "jsstring \<Rightarrow> nat" where
  "digits_value ds = foldl (\<lambda>n c. 10 * n + (unat c - 48)) 0 ds"

definition number_sign :: "jsstring \<Rightarrow> bool \<times> jsstring" where
  "number_sign cs =
     (case cs of
        [] \<Rightarrow> (False, [])
      | c # r \<Rightarrow> if c = 0x2D then (True, r) else (False, cs))"

definition number_int :: "jsstring \<Rightarrow> (jsstring \<times> jsstring) option" where
  "number_int cs =
     (case cs of
        [] \<Rightarrow> None
      | c # r \<Rightarrow>
          if c = 0x30 then Some ([c], r)
          else if is_digit c then Some (takeWhile is_digit cs, dropWhile is_digit cs)
          else None)"

definition number_fraction :: "jsstring \<Rightarrow> (jsstring \<times> jsstring) option" where
  "number_fraction cs =
     (case cs of
        [] \<Rightarrow> Some ([], [])
      | c # r \<Rightarrow>
          if c = 0x2E then
            (if takeWhile is_digit r = [] then None
             else Some (takeWhile is_digit r, dropWhile is_digit r))
          else Some ([], cs))"

definition number_exponent :: "jsstring \<Rightarrow> (int \<times> jsstring) option" where
  "number_exponent cs =
     (case cs of
        [] \<Rightarrow> Some (0, [])
      | c # r \<Rightarrow>
          if c = 0x65 \<or> c = 0x45 then
            (let (negative, r') =
               (case r of
                  [] \<Rightarrow> (False, [])
                | s # t \<Rightarrow> if s = 0x2D then (True, t) else if s = 0x2B then (False, t) else (False, r))
             in if takeWhile is_digit r' = [] then None
                else Some ((if negative then - 1 else 1) * int (digits_value (takeWhile is_digit r')),
                           dropWhile is_digit r'))
          else Some (0, cs))"

definition parse_number :: "jsstring \<Rightarrow> (json \<times> jsstring) option" where
  "parse_number cs =
     (let (negative, r1) = number_sign cs in
      case number_int r1 of
        None \<Rightarrow> None
      | Some (ip, r2) \<Rightarrow>
          (case number_fraction r2 of
             None \<Rightarrow> None
           | Some (fp, r3) \<Rightarrow>
               (case number_exponent r3 of
                  None \<Rightarrow> None
                | Some (x, r4) \<Rightarrow>
                    Some (JNum ((if negative then - 1 else 1) * int (digits_value (ip @ fp)))
                               (x - int (length fp)), r4))))"

lemma skip_ws_length: "length (skip_ws cs) \<le> length cs"
  by (simp add: skip_ws_def length_dropWhile_le)

lemma consume_Some: "consume x p = Some (s, r) \<Longrightarrow> \<exists>s'. p = Some (s', r)"
  by (auto simp: consume_def split: option.splits)


lemma parse_chars_length: "parse_chars cs = Some (s, r) \<Longrightarrow> length r < length cs"
proof (induction cs arbitrary: s rule: parse_chars.induct)
  case 1
  then show ?case by simp
next
  case (2 c cs)
  consider (quote) "c = 0x22"
    | (esc) "c \<noteq> 0x22" "c = 0x5C"
    | (plain) "c \<noteq> 0x22" "c \<noteq> 0x5C"
    by blast
  then show ?case
  proof cases
    case quote
    with 2(4) show ?thesis by simp
  next
    case plain
    with 2(4) obtain s' where "parse_chars cs = Some (s', r)"
      by (auto split: if_splits dest!: consume_Some)
    with 2(3) [OF plain] 2(4) plain show ?thesis
      by (fastforce split: if_splits)
  next
    case esc
    show ?thesis
    proof (cases cs)
      case Nil
      with 2(4) esc show ?thesis by simp
    next
      case (Cons x t)
      show ?thesis
      proof (cases "x = 0x75")
        case False
        with 2(4) esc Cons obtain u s' where u: "unescape x = Some u" and p: "parse_chars t = Some (s', r)"
          by (auto split: option.splits dest!: consume_Some)
        from 2(2) [OF esc Cons False u p] show ?thesis
          using Cons by simp
      next
        case True
        with 2(4) esc Cons obtain h1 h2 h3 h4 t' u s' where
          t: "t = h1 # h2 # h3 # h4 # t'" and u: "hex4 h1 h2 h3 h4 = Some u"
          and p: "parse_chars t' = Some (s', r)"
          by (auto split: list.splits option.splits dest!: consume_Some)
        have "length r < length t'"
          using 2(1) [OF esc Cons True, of h1 "h2 # h3 # h4 # t'" h2 "h3 # h4 # t'" h3 "h4 # t'" h4 t' u s'] t u p
          by simp
        then show ?thesis
          using Cons t by simp
      qed
    qed
  qed
qed

lemma number_sign_length: "number_sign cs = (b, r) \<Longrightarrow> length r \<le> length cs"
  by (auto simp: number_sign_def split: list.splits if_splits)

lemma number_int_length: "number_int cs = Some (ds, r) \<Longrightarrow> length r < length cs"
  using length_dropWhile_le [of is_digit "tl cs"]
  by (auto simp: number_int_def split: list.splits if_splits)

lemma number_fraction_length: "number_fraction cs = Some (ds, r) \<Longrightarrow> length r \<le> length cs"
  using length_dropWhile_le [of is_digit "tl cs"]
  by (auto simp: number_fraction_def split: list.splits if_splits)

lemma number_exponent_length: "number_exponent cs = Some (x, r) \<Longrightarrow> length r \<le> length cs"
proof (cases cs)
  assume a: "number_exponent cs = Some (x, r)"
  case Nil
  with a show ?thesis by (simp add: number_exponent_def)
next
  assume a: "number_exponent cs = Some (x, r)"
  case (Cons c t)
  show ?thesis
  proof (cases "c = 0x65 \<or> c = 0x45")
    case False
    with a Cons show ?thesis by (simp add: number_exponent_def)
  next
    case True
    obtain b r' where s: "(case t of
                  [] \<Rightarrow> (False, [])
                | s # u \<Rightarrow> if s = 0x2D then (True, u) else if s = 0x2B then (False, u) else (False, t)) = (b, r')"
      by (cases "(case t of
                  [] \<Rightarrow> (False, [])
                | s # u \<Rightarrow> if s = 0x2D then (True, u) else if s = 0x2B then (False, u) else (False, t))")
    then have "length r' \<le> length t"
      by (auto split: list.splits if_splits)
    moreover from a Cons True s have "r = dropWhile is_digit r'"
      by (auto simp: number_exponent_def split: if_splits)
    ultimately show ?thesis
      using Cons length_dropWhile_le [of is_digit r'] by simp
  qed
qed

lemma parse_number_length: "parse_number cs = Some (v, r) \<Longrightarrow> length r < length cs"
proof -
  assume a: "parse_number cs = Some (v, r)"
  obtain b r1 where s: "number_sign cs = (b, r1)"
    by (cases "number_sign cs")
  from a s obtain ip r2 where i: "number_int r1 = Some (ip, r2)"
    by (auto simp: parse_number_def split: option.splits)
  from a s i obtain fp r3 where f: "number_fraction r2 = Some (fp, r3)"
    by (auto simp: parse_number_def split: option.splits)
  from a s i f obtain x where e: "number_exponent r3 = Some (x, r)"
    by (auto simp: parse_number_def split: option.splits)
  from number_sign_length [OF s] number_int_length [OF i] number_fraction_length [OF f]
    number_exponent_length [OF e]
  show ?thesis by simp
qed

lemma strip_prefix_length: "strip_prefix p cs = Some r \<Longrightarrow> length cs = length p + length r"
  by (induction p cs rule: strip_prefix.induct) (auto split: if_splits)

text \<open>
  Values, the elements of an array after its bracket or a comma, and the members of an
  object after its brace or a comma. The test on the lengths in the two loops lets the
  recursion be seen to end; it never fails, as \<open>parse_elements_unfold\<close> and
  \<open>parse_members_unfold\<close> show below.
\<close>

function parse_value :: "jsstring \<Rightarrow> (json \<times> jsstring) option"
  and parse_elements :: "jsstring \<Rightarrow> (json list \<times> jsstring) option"
  and parse_members :: "jsstring \<Rightarrow> ((jsstring \<times> json) list \<times> jsstring) option"
where
  "parse_value cs =
     (case skip_ws cs of
        [] \<Rightarrow> None
      | c # r \<Rightarrow>
          if c = 0x7B then
            (case skip_ws r of
               [] \<Rightarrow> None
             | d # r' \<Rightarrow>
                 if d = 0x7D then Some (JObj [], r')
                 else (case parse_members r of
                         None \<Rightarrow> None
                       | Some (ms, r'') \<Rightarrow> Some (JObj ms, r'')))
          else if c = 0x5B then
            (case skip_ws r of
               [] \<Rightarrow> None
             | d # r' \<Rightarrow>
                 if d = 0x5D then Some (JArr [], r')
                 else (case parse_elements r of
                         None \<Rightarrow> None
                       | Some (vs, r'') \<Rightarrow> Some (JArr vs, r'')))
          else if c = 0x22 then
            (case parse_chars r of
               None \<Rightarrow> None
             | Some (s, r') \<Rightarrow> Some (JStr s, r'))
          else if c = 0x74 then
            (case strip_prefix (ascii ''true'') (c # r) of
               None \<Rightarrow> None
             | Some r' \<Rightarrow> Some (JBool True, r'))
          else if c = 0x66 then
            (case strip_prefix (ascii ''false'') (c # r) of
               None \<Rightarrow> None
             | Some r' \<Rightarrow> Some (JBool False, r'))
          else if c = 0x6E then
            (case strip_prefix (ascii ''null'') (c # r) of
               None \<Rightarrow> None
             | Some r' \<Rightarrow> Some (JNull, r'))
          else parse_number (c # r))"
| "parse_elements cs =
     (case parse_value cs of
        None \<Rightarrow> None
      | Some (v, r) \<Rightarrow>
          (case skip_ws r of
             [] \<Rightarrow> None
           | d # r' \<Rightarrow>
               if d = 0x5D then Some ([v], r')
               else if d = 0x2C \<and> length r' < length cs then consume v (parse_elements r')
               else None))"
| "parse_members cs =
     (case skip_ws cs of
        [] \<Rightarrow> None
      | q # r \<Rightarrow>
          if q = 0x22 then
            (case parse_chars r of
               None \<Rightarrow> None
             | Some (k, r1) \<Rightarrow>
                 (case skip_ws r1 of
                    [] \<Rightarrow> None
                  | colon # r2 \<Rightarrow>
                      if colon = 0x3A then
                        (case parse_value r2 of
                           None \<Rightarrow> None
                         | Some (v, r3) \<Rightarrow>
                             (case skip_ws r3 of
                                [] \<Rightarrow> None
                              | d # r4 \<Rightarrow>
                                  if d = 0x7D then Some ([(k, v)], r4)
                                  else if d = 0x2C \<and> length r4 < length cs
                                    then consume (k, v) (parse_members r4)
                                  else None))
                      else None))
          else None)"
  by pat_completeness (simp_all only: sum.inject sum.distinct)
termination
proof (relation "measure (\<lambda>x. case x of
         Inl cs \<Rightarrow> 2 * length cs
       | Inr (Inl cs) \<Rightarrow> 2 * length cs + 1
       | Inr (Inr cs) \<Rightarrow> 2 * length cs + 1)", goal_cases)
  case 1
  then show ?case by simp
next
  case (2 cs c r d r')
  then show ?case using skip_ws_length [of cs] by simp
next
  case (3 cs c r d r')
  then show ?case using skip_ws_length [of cs] by simp
next
  case (4 cs)
  then show ?case by simp
next
  case (5 cs x v r d r')
  then show ?case by simp
next
  case (6 cs q r x k r1 colon r2)
  then show ?case
    using skip_ws_length [of cs] skip_ws_length [of r1] parse_chars_length [of r k r1]
    by simp
next
  case (7 cs q r x k r1 colon r2 y v r3 d r4)
  then show ?case by simp
qed

definition JSON_parse :: "jsstring \<Rightarrow> json option" where
  "JSON_parse text =
     (case parse_value text of
        None \<Rightarrow> None
      | Some (v, r) \<Rightarrow> if skip_ws r = [] then Some v else None)"

declare parse_value.simps [simp del] parse_elements.simps [simp del] parse_members.simps [simp del]

text \<open>Every parser consumes input, so the loops go on whenever a comma follows.\<close>

lemma consume_length:
  "consume x p = Some (xs, r) \<Longrightarrow> (\<And>ys. p = Some (ys, r) \<Longrightarrow> P) \<Longrightarrow> P"
  by (auto simp: consume_def split: option.splits)

lemma skip_ws_Cons_length: "skip_ws cs = c # r \<Longrightarrow> length r < length cs"
  using skip_ws_length [of cs] by simp

lemma parse_shorter:
  "(\<forall>v r. parse_value cs = Some (v, r) \<longrightarrow> length r < length cs)"
  "(\<forall>vs r. parse_elements cs1 = Some (vs, r) \<longrightarrow> length r < length cs1)"
  "(\<forall>ms r. parse_members cs2 = Some (ms, r) \<longrightarrow> length r < length cs2)"
proof (induction cs and cs1 and cs2 rule: parse_value_parse_elements_parse_members.induct)
  case (1 cs)
  show ?case
  proof (intro allI impI)
    fix v r
    assume a: "parse_value cs = Some (v, r)"
    then obtain c t where s: "skip_ws cs = c # t"
      by (subst (asm) parse_value.simps) (auto split: list.splits)
    have t: "length t < length cs"
      using s by (rule skip_ws_Cons_length)
    consider (obj) "c = 0x7B" | (arr) "c \<noteq> 0x7B" "c = 0x5B" | (str) "c \<noteq> 0x7B" "c \<noteq> 0x5B" "c = 0x22"
      | (other) "c \<noteq> 0x7B" "c \<noteq> 0x5B" "c \<noteq> 0x22"
      by blast
    then show "length r < length cs"
    proof cases
      case obj
      from a s obj obtain d t' where s': "skip_ws t = d # t'"
        by (subst (asm) parse_value.simps) (auto split: list.splits)
      show ?thesis
      proof (cases "d = 0x7D")
        case True
        with a s obj s' have "r = t'"
          by (subst (asm) parse_value.simps) simp
        with skip_ws_Cons_length [OF s'] t show ?thesis by simp
      next
        case False
        with a s obj s' obtain ms where "parse_members t = Some (ms, r)"
          by (subst (asm) parse_value.simps) (auto split: option.splits)
        with 1(1) [OF s obj s' False] t show ?thesis by fastforce
      qed
    next
      case arr
      from a s arr obtain d t' where s': "skip_ws t = d # t'"
        by (subst (asm) parse_value.simps) (auto split: list.splits)
      show ?thesis
      proof (cases "d = 0x5D")
        case True
        with a s arr s' have "r = t'"
          by (subst (asm) parse_value.simps) simp
        with skip_ws_Cons_length [OF s'] t show ?thesis by simp
      next
        case False
        with a s arr s' obtain vs where "parse_elements t = Some (vs, r)"
          by (subst (asm) parse_value.simps) (auto split: option.splits)
        with 1(2) [OF s arr(1) arr(2) s' False] t show ?thesis by fastforce
      qed
    next
      case str
      with a s obtain x where "parse_chars t = Some (x, r)"
        by (subst (asm) parse_value.simps) (auto split: option.splits)
      from parse_chars_length [OF this] t show ?thesis by simp
    next
      case other
      with a s have "(\<exists>p. strip_prefix p t = Some r) \<or> parse_number (c # t) = Some (v, r)"
        by (subst (asm) parse_value.simps) (auto simp: ascii_def split: option.splits if_splits)
      then have "length r \<le> length t"
        using strip_prefix_length [of _ t r] parse_number_length [of "c # t" v r]
        by auto
      with t show ?thesis by simp
    qed
  qed
next
  case (2 cs)
  show ?case
  proof (intro allI impI)
    fix vs r
    assume a: "parse_elements cs = Some (vs, r)"
    then obtain v t where p: "parse_value cs = Some (v, t)"
      by (subst (asm) parse_elements.simps) (auto split: option.splits)
    with 2(1) have t: "length t < length cs" by simp
    from a p obtain d t' where s: "skip_ws t = d # t'"
      by (subst (asm) parse_elements.simps) (auto split: list.splits)
    have t': "length t' < length cs"
      using skip_ws_Cons_length [OF s] t by simp
    show "length r < length cs"
    proof (cases "d = 0x5D")
      case True
      with a p s have "r = t'"
        by (subst (asm) parse_elements.simps) simp
      with t' show ?thesis by simp
    next
      case False
      with a p s have c: "d = 0x2C \<and> length t' < length cs"
        by (subst (asm) parse_elements.simps) (auto split: if_splits)
      with a p s False obtain ws where "parse_elements t' = Some (ws, r)"
        by (subst (asm) parse_elements.simps) (auto elim: consume_length)
      with 2(2) [OF p refl s False c] t' show ?thesis by fastforce
    qed
  qed
next
  case (3 cs)
  show ?case
  proof (intro allI impI)
    fix ms r
    assume a: "parse_members cs = Some (ms, r)"
    then obtain q t where s: "skip_ws cs = q # t" and q: "q = 0x22"
      by (subst (asm) parse_members.simps) (auto split: list.splits if_splits)
    from a s q obtain k r1 where k: "parse_chars t = Some (k, r1)"
      by (subst (asm) parse_members.simps) (auto split: option.splits)
    from a s q k obtain colon r2 where s1: "skip_ws r1 = colon # r2" and colon: "colon = 0x3A"
      by (subst (asm) parse_members.simps) (auto split: list.splits if_splits)
    from a s q k s1 colon obtain v r3 where v: "parse_value r2 = Some (v, r3)"
      by (subst (asm) parse_members.simps) (auto split: option.splits)
    from a s q k s1 colon v obtain d r4 where s3: "skip_ws r3 = d # r4"
      by (subst (asm) parse_members.simps) (auto split: list.splits)
    have "length r3 < length r2"
      using 3(1) [OF s q k refl s1 colon] v by simp
    then have r4: "length r4 < length cs"
      using skip_ws_Cons_length [OF s] parse_chars_length [OF k] skip_ws_Cons_length [OF s1]
        skip_ws_Cons_length [OF s3]
      by simp
    show "length r < length cs"
    proof (cases "d = 0x7D")
      case True
      with a s q k s1 colon v s3 have "r = r4"
        by (subst (asm) parse_members.simps) simp
      with r4 show ?thesis by simp
    next
      case False
      with a s q k s1 colon v s3 have c: "d = 0x2C \<and> length r4 < length cs"
        by (subst (asm) parse_members.simps) (auto split: if_splits)
      with a s q k s1 colon v s3 False obtain ws where "parse_members r4 = Some (ws, r)"
        by (subst (asm) parse_members.simps) (auto elim: consume_length)
      with 3(2) [OF s q k refl s1 colon v refl s3 False c] r4
      show ?thesis by fastforce
    qed
  qed
qed

lemma parse_elements_unfold:
  "parse_elements cs =
     (case parse_value cs of
        None \<Rightarrow> None
      | Some (v, r) \<Rightarrow>
          (case skip_ws r of
             [] \<Rightarrow> None
           | d # r' \<Rightarrow>
               if d = 0x5D then Some ([v], r')
               else if d = 0x2C then consume v (parse_elements r')
               else None))"
proof (cases "parse_value cs")
  case None
  then show ?thesis by (subst parse_elements.simps) simp
next
  case (Some p)
  obtain v r where p: "p = (v, r)" by (cases p)
  have r: "length r < length cs"
    using parse_shorter(1) [of cs] Some p by simp
  show ?thesis
  proof (cases "skip_ws r")
    case Nil
    with Some p show ?thesis by (subst parse_elements.simps) simp
  next
    case (Cons d r')
    with r have "length r' < length cs"
      using skip_ws_Cons_length [of r d r'] by simp
    with Some p Cons show ?thesis by (subst parse_elements.simps) simp
  qed
qed

lemma parse_members_unfold:
  "parse_members cs =
     (case skip_ws cs of
        [] \<Rightarrow> None
      | q # r \<Rightarrow>
          if q = 0x22 then
            (case parse_chars r of
               None \<Rightarrow> None
             | Some (k, r1) \<Rightarrow>
                 (case skip_ws r1 of
                    [] \<Rightarrow> None
                  | colon # r2 \<Rightarrow>
                      if colon = 0x3A then
                        (case parse_value r2 of
                           None \<Rightarrow> None
                         | Some (v, r3) \<Rightarrow>
                             (case skip_ws r3 of
                                [] \<Rightarrow> None
                              | d # r4 \<Rightarrow>
                                  if d = 0x7D then Some ([(k, v)], r4)
                                  else if d = 0x2C then consume (k, v) (parse_members r4)
                                  else None))
                      else None))
          else None)"
proof -
  have g: "length r4 < length cs"
    if "skip_ws cs = q # r" "parse_chars r = Some (k, r1)" "skip_ws r1 = colon # r2"
      "parse_value r2 = Some (v, r3)" "skip_ws r3 = d # r4"
    for q r k r1 colon r2 v r3 d r4
    using that skip_ws_Cons_length [of cs q r] parse_chars_length [of r k r1]
      skip_ws_Cons_length [of r1 colon r2] parse_shorter(1) [of r2]
      skip_ws_Cons_length [of r3 d r4]
    by fastforce
  show ?thesis
    by (subst parse_members.simps)
       (auto split: list.splits option.splits simp: g)
qed

text \<open>Parsing inverts quoting, for every string.\<close>

lemma hex_digits_all: "\<forall>n \<in> set [0..<16]. hex_value (hex_digit n) = Some n"
  by (simp add: upt_rec hex_value_def hex_digit_def)

lemma hex_value_hex_digit: "n < 16 \<Longrightarrow> hex_value (hex_digit n) = Some n"
  using hex_digits_all by (simp del: upt.simps)

lemma hex_recompose:
  "((n div 4096 * 16 + n div 256 mod 16) * 16 + n div 16 mod 16) * 16 + n mod 16 = (n::nat)"
proof -
  have a: "n div 256 = n div 16 div 16"
    using div_mult2_eq [of n 16 16] by simp
  have b: "n div 4096 = n div 256 div 16"
    using div_mult2_eq [of n 256 16] by simp
  have "n div 4096 * 16 + n div 256 mod 16 = n div 256"
    unfolding b by simp
  moreover have "n div 256 * 16 + n div 16 mod 16 = n div 16"
    unfolding a by simp
  moreover have "n div 16 * 16 + n mod 16 = n"
    by simp
  ultimately show ?thesis by simp
qed

lemma hex4_UnicodeEscape:
  "hex4 (hex_digit (unat c div 4096)) (hex_digit (unat c div 256 mod 16))
        (hex_digit (unat c div 16 mod 16)) (hex_digit (unat c mod 16)) = Some c"
proof -
  have "unat c < 65536"
    using unsigned_less [of c] by simp
  then have "unat c div 4096 < 16" by simp
  then have v1: "hex_value (hex_digit (unat c div 4096)) = Some (unat c div 4096)"
    by (rule hex_value_hex_digit)
  have v2: "hex_value (hex_digit (unat c div 256 mod 16)) = Some (unat c div 256 mod 16)"
    by (rule hex_value_hex_digit) simp
  have v3: "hex_value (hex_digit (unat c div 16 mod 16)) = Some (unat c div 16 mod 16)"
    by (rule hex_value_hex_digit) simp
  have v4: "hex_value (hex_digit (unat c mod 16)) = Some (unat c mod 16)"
    by (rule hex_value_hex_digit) simp
  show ?thesis
    unfolding hex4_def v1 v2 v3 v4 prod.case option.case hex_recompose by simp
qed

lemma parse_chars_plain:
  "c \<noteq> 0x22 \<Longrightarrow> c \<noteq> 0x5C \<Longrightarrow> \<not> c < 0x20 \<Longrightarrow>
   parse_chars (c # cs) = consume c (parse_chars cs)"
  by simp

lemma parse_chars_unicode:
  "parse_chars (UnicodeEscape c @ cs) = consume c (parse_chars cs)"
  by (simp add: UnicodeEscape_def hex4_UnicodeEscape)

lemma parse_chars_escape_unit:
  "parse_chars (escape_unit c @ cs) = consume c (parse_chars cs)"
proof (cases "c = 0x08 \<or> c = 0x09 \<or> c = 0x0A \<or> c = 0x0C \<or> c = 0x0D \<or> c = 0x22 \<or> c = 0x5C")
  case True
  then show ?thesis
    by (auto simp: escape_unit_def unescape_def)
next
  case False
  show ?thesis
  proof (cases "c < 0x20 \<or> is_leading_surrogate c \<or> is_trailing_surrogate c")
    case True
    with False have "escape_unit c = UnicodeEscape c"
      by (simp add: escape_unit_def)
    then show ?thesis
      by (simp only: parse_chars_unicode)
  next
    case plain: False
    with False have "escape_unit c = [c]"
      by (simp add: escape_unit_def)
    with False plain show ?thesis
      by simp
  qed
qed

lemma surrogate_plain:
  "is_leading_surrogate c \<or> is_trailing_surrogate c \<Longrightarrow>
   c \<noteq> 0x22 \<and> c \<noteq> 0x5C \<and> \<not> c < 0x20"
  by (auto simp: is_leading_surrogate_def is_trailing_surrogate_def word_le_nat_alt word_less_nat_alt)

lemma parse_chars_quote_units:
  "parse_chars (quote_units s @ 0x22 # rest) = Some (s, rest)"
proof (induction s rule: quote_units.induct)
  case 1
  show ?case by simp
next
  case (2 c)
  have "parse_chars (escape_unit c @ 0x22 # rest) = consume c (parse_chars (0x22 # rest))"
    by (rule parse_chars_escape_unit)
  also have "\<dots> = Some ([c], rest)"
    by (simp add: consume_def)
  finally show ?case by simp
next
  case (3 c d cs)
  show ?case
  proof (cases "is_leading_surrogate c \<and> is_trailing_surrogate d")
    case True
    then have c: "c \<noteq> 0x22 \<and> c \<noteq> 0x5C \<and> \<not> c < 0x20"
      and d: "d \<noteq> 0x22 \<and> d \<noteq> 0x5C \<and> \<not> d < 0x20"
      using surrogate_plain by blast+
    have "parse_chars (c # d # quote_units cs @ 0x22 # rest)
            = consume c (consume d (parse_chars (quote_units cs @ 0x22 # rest)))"
      using c d by (simp add: parse_chars_plain del: parse_chars.simps)
    also have "\<dots> = Some (c # d # cs, rest)"
      unfolding 3(1) [OF True] by (simp add: consume_def)
    finally show ?thesis
      using True by simp
  next
    case False
    then have q: "quote_units (c # d # cs) = escape_unit c @ quote_units (d # cs)"
      by auto
    have "parse_chars (escape_unit c @ quote_units (d # cs) @ 0x22 # rest)
            = consume c (parse_chars (quote_units (d # cs) @ 0x22 # rest))"
      by (rule parse_chars_escape_unit)
    also have "\<dots> = Some (c # d # cs, rest)"
      unfolding 3(2) [OF False] by (simp add: consume_def)
    finally show ?thesis
      unfolding q by (simp only: append_assoc)
  qed
qed

lemma QuoteJSONString_append:
  "QuoteJSONString s @ rest = 0x22 # quote_units s @ 0x22 # rest"
  by (simp add: QuoteJSONString_def)

lemma skip_ws_nonws: "\<not> is_ws c \<Longrightarrow> skip_ws (c # cs) = c # cs"
  by (simp add: skip_ws_def)

lemma parse_value_string:
  "parse_value (0x22 # quote_units s @ 0x22 # rest) = Some (JStr s, rest)"
  by (subst parse_value.simps)
     (simp add: skip_ws_nonws is_ws_def parse_chars_quote_units)

lemma parse_members_single:
  "parse_members (0x22 # quote_units k @ 0x22 # 0x3A # 0x22 # quote_units v @ 0x22 # 0x7D # rest)
     = Some ([(k, JStr v)], rest)"
  by (subst parse_members.simps)
     (simp add: skip_ws_nonws is_ws_def parse_chars_quote_units parse_value_string)

lemma JSON_parse_stringify_single:
  "JSON_parse (JSON_stringify [(k, v)]) = Some (object_of [(k, v)])"
proof -
  have "JSON_stringify [(k, v)]
          = 0x7B # 0x22 # quote_units k @ 0x22 # 0x3A # 0x22 # quote_units v @ 0x22 # 0x7D # []"
    by (simp add: JSON_stringify_def QuoteJSONString_def)
  moreover have "parse_value (0x7B # 0x22 # quote_units k @ 0x22 # 0x3A # 0x22 # quote_units v @ 0x22 # 0x7D # [])
          = Some (JObj [(k, JStr v)], [])"
    by (subst parse_value.simps)
       (simp add: skip_ws_nonws is_ws_def parse_members_single)
  ultimately show ?thesis
    by (simp add: JSON_parse_def object_of_def skip_ws_def)
qed

section \<open>The session state container\<close>

text \<open>
  \<^verbatim>\<open>AuthProvider\<close> (lines 46 to 96) holds four pieces of React state; \<^verbatim>\<open>AuthModal\<close>
  (lines 102 to 125) holds three more. The browser side is the storage area of the
  origin, the pages the browser was asked to load with their targets, the
  \<^verbatim>\<open>defaultPrevented\<close> flag of the event being dispatched and the timers waiting to fire.
  \<open>trace\<close> records every call of a state setter or of a browser function, in the
  order in which the code makes them. The storage area is taken to be available and to
  have room: \<^verbatim>\<open>getItem\<close> and \<^verbatim>\<open>setItem\<close> do not throw.
\<close>

datatype view = Login | Signup

datatype effect =
    SetUser json
  | SetIsLoading bool
  | SetShowAuthModal bool
  | SetAuthView view
  | SetEmail jsstring
  | SetPassword jsstring
  | SetLoading bool
  | GetItem jsstring
  | SetItem jsstring jsstring
  | RemoveItem jsstring
  | PreventDefault
  | WindowOpen jsstring jsstring
  | SetTimeout nat

record world =
  user :: json
  isLoading :: bool
  showAuthModal :: bool
  authView :: view
  email :: jsstring
  password :: jsstring
  loading :: bool
  localStorage :: "jsstring \<rightharpoonup> jsstring"
  opened :: "(jsstring \<times> jsstring) list"
  defaultPrevented :: bool
  timers :: "(nat \<times> view \<times> jsstring) list"
  trace :: "effect list"

text \<open>The four values the context exposes as state.\<close>

definition container :: "world \<Rightarrow> json \<times> bool \<times> bool \<times> view" where
  "container w = (user w, isLoading w, showAuthModal w, authView w)"

definition storage_key :: jsstring where
  "storage_key = ascii ''viralAuditUser''"

text \<open>The \<^verbatim>\<open>useState\<close> initial values, over a given storage area.\<close>

definition initial_world :: "(jsstring \<rightharpoonup> jsstring) \<Rightarrow> world" where
  "initial_world st =
     \<lparr>user = JNull, isLoading = True, showAuthModal = False, authView = Signup,
      email = [], password = [], loading = False,
      localStorage = st, opened = [], defaultPrevented = False, timers = [], trace = []\<rparr>"

subsection \<open>State setters and browser functions\<close>

definition setUser :: "json \<Rightarrow> world \<Rightarrow> world" where
  "setUser v w = w\<lparr>user := v, trace := trace w @ [SetUser v]\<rparr>"

definition setIsLoading :: "bool \<Rightarrow> world \<Rightarrow> world" where
  "setIsLoading b w = w\<lparr>isLoading := b, trace := trace w @ [SetIsLoading b]\<rparr>"

definition setShowAuthModal :: "bool \<Rightarrow> world \<Rightarrow> world" where
  "setShowAuthModal b w = w\<lparr>showAuthModal := b, trace := trace w @ [SetShowAuthModal b]\<rparr>"

definition setAuthView :: "view \<Rightarrow> world \<Rightarrow> world" where
  "setAuthView v w = w\<lparr>authView := v, trace := trace w @ [SetAuthView v]\<rparr>"

definition setEmail :: "jsstring \<Rightarrow> world \<Rightarrow> world" where
  "setEmail s w = w\<lparr>email := s, trace := trace w @ [SetEmail s]\<rparr>"

definition setPassword :: "jsstring \<Rightarrow> world \<Rightarrow> world" where
  "setPassword s w = w\<lparr>password := s, trace := trace w @ [SetPassword s]\<rparr>"

definition setLoading :: "bool \<Rightarrow> world \<Rightarrow> world" where
  "setLoading b w = w\<lparr>loading := b, trace := trace w @ [SetLoading b]\<rparr>"

definition getItem :: "jsstring \<Rightarrow> world \<Rightarrow> jsstring option \<times> world" where
  "getItem k w = (localStorage w k, w\<lparr>trace := trace w @ [GetItem k]\<rparr>)"

definition setItem :: "jsstring \<Rightarrow> jsstring \<Rightarrow> world \<Rightarrow> world" where
  "setItem k v w =
     w\<lparr>localStorage := (localStorage w)(k \<mapsto> v), trace := trace w @ [SetItem k v]\<rparr>"

definition removeItem :: "jsstring \<Rightarrow> world \<Rightarrow> world" where
  "removeItem k w =
     w\<lparr>localStorage := (localStorage w)(k := None), trace := trace w @ [RemoveItem k]\<rparr>"

definition preventDefault :: "world \<Rightarrow> world" where
  "preventDefault w = w\<lparr>defaultPrevented := True, trace := trace w @ [PreventDefault]\<rparr>"

definition window_open :: "jsstring \<Rightarrow> jsstring \<Rightarrow> world \<Rightarrow> world" where
  "window_open url target w =
     w\<lparr>opened := opened w @ [(url, target)], trace := trace w @ [WindowOpen url target]\<rparr>"

subsection \<open>login, signup, logout (lines 61 to 79)\<close>

definition login :: "jsstring \<Rightarrow> world \<Rightarrow> world" where
  "login address w =
     (let newUser = [(ascii ''email'', address)];
          w1 = setUser (object_of newUser) w;
          w2 = setItem storage_key (JSON_stringify newUser) w1
      in setShowAuthModal False w2)"

definition signup :: "jsstring \<Rightarrow> world \<Rightarrow> world" where
  "signup address w =
     (let newUser = [(ascii ''email'', address)];
          w1 = setUser (object_of newUser) w;
          w2 = setItem storage_key (JSON_stringify newUser) w1
      in setShowAuthModal False w2)"

definition logout :: "world \<Rightarrow> world" where
  "logout w = removeItem storage_key (setUser JNull w)"

subsection \<open>The session check on mount (lines 52 to 59)\<close>

text \<open>
  The effect that the spec calls \<^verbatim>\<open>initialize()\<close>. \<^verbatim>\<open>if (storedUser)\<close> is false for
  \<^verbatim>\<open>null\<close> (no such key) and for the empty string. \<^verbatim>\<open>JSON.parse\<close> throws before
  \<^verbatim>\<open>setUser\<close> is called, and nothing catches it: the result is then the error with the
  state at the throw.
\<close>

datatype error = SyntaxError

definition initialize :: "world \<Rightarrow> (error \<times> world) + world" where
  "initialize w =
     (let (storedUser, w1) = getItem storage_key w in
      case storedUser of
        None \<Rightarrow> Inr (setIsLoading False w1)
      | Some text \<Rightarrow>
          if text = [] then Inr (setIsLoading False w1)
          else (case JSON_parse text of
                  None \<Rightarrow> Inl (SyntaxError, w1)
                | Some v \<Rightarrow> Inr (setIsLoading False (setUser v w1))))"

subsection \<open>Event handlers of the components\<close>

text \<open>
  A handler reads the state of the render it was created in, which is the state at the
  time the event is dispatched. \<^verbatim>\<open>Navbar.handleInstallClick\<close> (lines 281 to 291) and
  \<^verbatim>\<open>Hero.handleInstallClick\<close> (lines 620 to 630):
\<close>

definition install_url :: jsstring where
  "install_url = ascii ''https://google.com''"

definition blank :: jsstring where
  "blank = ascii ''_blank''"

definition Navbar_handleInstallClick :: "world \<Rightarrow> world" where
  "Navbar_handleInstallClick w =
     (let w1 = preventDefault w in
      if truthy (user w) then window_open install_url blank w1
      else setShowAuthModal True (setAuthView Signup w1))"

definition Hero_handleInstallClick :: "world \<Rightarrow> world" where
  "Hero_handleInstallClick w =
     (let w1 = preventDefault w in
      if truthy (user w) then window_open install_url blank w1
      else setShowAuthModal True (setAuthView Signup w1))"

text \<open>\<^verbatim>\<open>PricingCard.handleCheckout\<close> (lines 769 to 776):\<close>

definition handleCheckout :: "world \<Rightarrow> world" where
  "handleCheckout w =
     (if \<not> truthy (user w)
      then setShowAuthModal True (setAuthView Signup (preventDefault w))
      else w)"

text \<open>
  A click on an anchor: the \<^verbatim>\<open>onClick\<close> handler runs on a fresh event, and the browser
  follows the link into its target unless the handler prevented that. The install and
  download anchors have \<^verbatim>\<open>href="#"\<close> and no target; the checkout anchor has the plan's
  \<^verbatim>\<open>checkoutUrl\<close> and \<^verbatim>\<open>target="_blank"\<close>. \<open>opened\<close> lists what the browser was asked
  to load, by \<^verbatim>\<open>window.open\<close> or by a followed link, with the target.
\<close>

definition click_anchor :: "jsstring \<Rightarrow> jsstring \<Rightarrow> (world \<Rightarrow> world) \<Rightarrow> world \<Rightarrow> world" where
  "click_anchor href target onClick w =
     (let w1 = onClick (w\<lparr>defaultPrevented := False\<rparr>) in
      if defaultPrevented w1 then w1
      else w1\<lparr>opened := opened w1 @ [(href, target)]\<rparr>)"

definition click_install_navbar :: "world \<Rightarrow> world" where
  "click_install_navbar w = click_anchor (ascii ''#'') [] Navbar_handleInstallClick w"

definition click_install_hero :: "world \<Rightarrow> world" where
  "click_install_hero w = click_anchor (ascii ''#'') [] Hero_handleInstallClick w"

definition click_checkout :: "jsstring \<Rightarrow> world \<Rightarrow> world" where
  "click_checkout checkoutUrl w = click_anchor checkoutUrl blank handleCheckout w"

text \<open>
  \<^verbatim>\<open>AuthModal.handleSubmit\<close> (lines 110 to 125) is an \<^verbatim>\<open>async\<close> function. It runs up to
  the \<^verbatim>\<open>await\<close> when the form is submitted and leaves a timer of 1000 ms, whose
  continuation holds the \<^verbatim>\<open>authView\<close> and the \<^verbatim>\<open>email\<close> of the render that created the
  handler. \<open>handleSubmit_resume\<close> is the rest of the body, run when the timer fires.
\<close>

definition setTimeout :: "nat \<Rightarrow> view \<times> jsstring \<Rightarrow> world \<Rightarrow> world" where
  "setTimeout ms k w =
     w\<lparr>timers := timers w @ [(ms, k)], trace := trace w @ [SetTimeout ms]\<rparr>"

definition handleSubmit :: "world \<Rightarrow> world" where
  "handleSubmit w =
     (let w1 = preventDefault w;
          w2 = setLoading True w1
      in setTimeout 1000 (authView w, email w) w2)"

definition handleSubmit_resume :: "view \<times> jsstring \<Rightarrow> world \<Rightarrow> world" where
  "handleSubmit_resume k w =
     (let w1 = (if fst k = Login then login (snd k) w else signup (snd k) w);
          w2 = setLoading False w1;
          w3 = setEmail [] w2
      in setPassword [] w3)"

text \<open>The submit button has \<^verbatim>\<open>disabled={loading}\<close> (line 186).\<close>

definition submit_disabled :: "world \<Rightarrow> bool" where
  "submit_disabled w = loading w"

subsection \<open>The events of the page\<close>

text \<open>
  What a visitor and the timer can do, and when: the navbar shows \<^verbatim>\<open>Login\<close> only
  without a user and \<^verbatim>\<open>Logout\<close> only with one (lines 319 to 352); the dialog and its
  controls exist only while \<^verbatim>\<open>showAuthModal\<close> holds (line 108); the form is submitted
  only through an enabled button and with both \<^verbatim>\<open>required\<close> fields filled.
\<close>

datatype ui_event =
    NavLoginClick
  | NavLogoutClick
  | NavInstallClick
  | HeroInstallClick
  | CheckoutClick jsstring
  | ModalCloseClick
  | SwitchViewClick
  | EmailInput jsstring
  | PasswordInput jsstring
  | FormSubmit
  | TimerFire nat

fun enabled :: "ui_event \<Rightarrow> world \<Rightarrow> bool" where
  "enabled NavLoginClick w = (\<not> truthy (user w))"
| "enabled NavLogoutClick w = truthy (user w)"
| "enabled NavInstallClick w = True"
| "enabled HeroInstallClick w = True"
| "enabled (CheckoutClick url) w = True"
| "enabled ModalCloseClick w = showAuthModal w"
| "enabled SwitchViewClick w = showAuthModal w"
| "enabled (EmailInput s) w = showAuthModal w"
| "enabled (PasswordInput s) w = showAuthModal w"
| "enabled FormSubmit w =
     (showAuthModal w \<and> \<not> submit_disabled w \<and> email w \<noteq> [] \<and> password w \<noteq> [])"
| "enabled (TimerFire i) w = (i < length (timers w))"

fun fire :: "ui_event \<Rightarrow> world \<Rightarrow> world" where
  "fire NavLoginClick w = setShowAuthModal True (setAuthView Login w)"
| "fire NavLogoutClick w = logout w"
| "fire NavInstallClick w = click_install_navbar w"
| "fire HeroInstallClick w = click_install_hero w"
| "fire (CheckoutClick url) w = click_checkout url w"
| "fire ModalCloseClick w = setShowAuthModal False w"
| "fire SwitchViewClick w =
     (if authView w = Login then setAuthView Signup w else setAuthView Login w)"
| "fire (EmailInput s) w = setEmail s w"
| "fire (PasswordInput s) w = setPassword s w"
| "fire FormSubmit w = handleSubmit (w\<lparr>defaultPrevented := False\<rparr>)"
| "fire (TimerFire i) w =
     handleSubmit_resume (snd (timers w ! i))
       (w\<lparr>timers := take i (timers w) @ drop (Suc i) (timers w)\<rparr>)"

text \<open>
  The states of the page. The handlers are live from the first commit, over the initial
  state and any storage area. The session check is a passive effect of that commit: it
  runs once, and an event may come before it. \<^verbatim>\<open>isLoading\<close> is true until the check has
  run, since nothing else writes it. An enabled event leads from a state to the next.
\<close>

inductive ui_reachable :: "world \<Rightarrow> bool" where
  first_commit: "ui_reachable (initial_world st)"
| session_check:
    "ui_reachable w \<Longrightarrow> isLoading w \<Longrightarrow> initialize w = Inr w' \<Longrightarrow> ui_reachable w'"
| event: "ui_reachable w \<Longrightarrow> enabled ev w \<Longrightarrow> ui_reachable (fire ev w)"





text \<open>A \<^verbatim>\<open>User\<close> (lines 17 to 20): an object with a string \<^verbatim>\<open>email\<close> and, if any, a string \<^verbatim>\<open>name\<close>.\<close>

fun get_property :: "jsstring \<Rightarrow> (jsstring \<times> json) list \<Rightarrow> json option" where
  "get_property k [] = None"
| "get_property k ((k', v) # ms) =
     (case get_property k ms of
        Some v' \<Rightarrow> Some v'
      | None \<Rightarrow> if k' = k then Some v else None)"

fun is_User :: "json \<Rightarrow> bool" where
  "is_User (JObj ms) =
     ((case get_property (ascii ''email'') ms of Some (JStr s) \<Rightarrow> True | _ \<Rightarrow> False)
      \<and> (case get_property (ascii ''name'') ms of
            None \<Rightarrow> True | Some (JStr s) \<Rightarrow> True | _ \<Rightarrow> False))"
| "is_User v = False"

lemma is_User_truthy: "is_User v \<Longrightarrow> truthy v"
  by (cases v) simp_all

text \<open>
  The container as mounted over a storage area: the initial state, then the session
  check.
\<close>

definition mount :: "(jsstring \<rightharpoonup> jsstring) \<Rightarrow> (error \<times> world) + world" where
  "mount st = initialize (initial_world st)"

text \<open>
  Two sample states: the page mounted over an empty storage area, and the page after a
  visitor has clicked \<^verbatim>\<open>Install Extension\<close>, filled the form in and waited for the
  submission to complete.
\<close>

definition mounted_empty :: world where
  "mounted_empty = projr (mount Map.empty)"

definition signed_up :: world where
  "signed_up =
     fire (TimerFire 0) (fire FormSubmit (fire (PasswordInput (ascii ''secret''))
       (fire (EmailInput (ascii ''a@b.com'')) (fire NavInstallClick mounted_empty))))"




section \<open>Facts about the model\<close>

lemmas setter_defs =
  setUser_def setIsLoading_def setShowAuthModal_def setAuthView_def setEmail_def
  setPassword_def setLoading_def getItem_def setItem_def removeItem_def
  preventDefault_def window_open_def

lemmas handler_defs =
  Navbar_handleInstallClick_def Hero_handleInstallClick_def handleCheckout_def
  click_anchor_def click_install_navbar_def click_install_hero_def click_checkout_def
  setTimeout_def handleSubmit_def handleSubmit_resume_def submit_disabled_def

subsection \<open>The three outcomes of the session check\<close>

lemma initialize_absent:
  "localStorage w storage_key = None \<or> localStorage w storage_key = Some [] \<Longrightarrow>
   initialize w = Inr (w\<lparr>isLoading := False,
                          trace := trace w @ [GetItem storage_key, SetIsLoading False]\<rparr>)"
  by (auto simp: initialize_def getItem_def setIsLoading_def)

lemma initialize_parsed:
  "localStorage w storage_key = Some stored \<Longrightarrow> stored \<noteq> [] \<Longrightarrow> JSON_parse stored = Some v \<Longrightarrow>
   initialize w = Inr (w\<lparr>user := v, isLoading := False,
                          trace := trace w @ [GetItem storage_key, SetUser v, SetIsLoading False]\<rparr>)"
  by (simp add: initialize_def getItem_def setIsLoading_def setUser_def)

lemma initialize_malformed:
  "localStorage w storage_key = Some stored \<Longrightarrow> stored \<noteq> [] \<Longrightarrow> JSON_parse stored = None \<Longrightarrow>
   initialize w = Inl (SyntaxError, w\<lparr>trace := trace w @ [GetItem storage_key]\<rparr>)"
  by (simp add: initialize_def getItem_def)

lemma JSON_parse_undefined: "JSON_parse (ascii ''undefined'') = None"
  by (simp add: JSON_parse_def parse_value.simps parse_number_def number_sign_def
      number_int_def ascii_def skip_ws_def is_ws_def is_digit_def)

lemma JSON_parse_example:
  "JSON_parse (ascii ''{\"email\":\"a@b.com\"}'')
     = Some (JObj [(ascii ''email'', JStr (ascii ''a@b.com''))])"
  by (simp add: JSON_parse_def parse_value.simps parse_members.simps ascii_def skip_ws_def
      is_ws_def consume_def)

lemma email_is_not_name: "ascii ''email'' \<noteq> ascii ''name''"
  by (simp add: ascii_def)

lemma stored_record_text:
  "JSON_stringify [(ascii ''email'', a)] = ascii ''{\"email\":'' @ QuoteJSONString a @ ascii ''}''"
  by (simp add: JSON_stringify_def QuoteJSONString_def ascii_def escape_unit_def
      is_leading_surrogate_def is_trailing_surrogate_def)

subsection \<open>The sample states\<close>

lemma mounted_empty_eq:
  "mounted_empty = (initial_world Map.empty)\<lparr>isLoading := False,
       trace := [GetItem storage_key, SetIsLoading False]\<rparr>"
  by (simp add: mounted_empty_def mount_def initialize_absent initial_world_def)











subsection \<open>Invariants of the page\<close>


lemma initialize_keeps_dialog:
  assumes "initialize w = Inr w'"
  shows "showAuthModal w' = showAuthModal w" "loading w' = loading w" "timers w' = timers w"
  using assms
  by (auto simp: initialize_def setter_defs split: option.splits if_splits)


lemma pending_submission:
  "ui_reachable w \<Longrightarrow>
   (if submit_disabled w then length (timers w) = 1 else timers w = [])"
proof (induction rule: ui_reachable.induct)
  case (first_commit st)
  show ?case by (simp add: initial_world_def submit_disabled_def)
next
  case (session_check w w')
  then show ?case by (simp add: initialize_keeps_dialog submit_disabled_def)
next
  case (event w ev)
  show ?case
  proof (cases ev)
    case (TimerFire i)
    with event have "length (timers w) = 1" "i = 0"
      by (auto split: if_splits)
    with TimerFire show ?thesis
      by (simp add: handler_defs setter_defs login_def signup_def Let_def)
  next
    case FormSubmit
    with event show ?thesis
      by (simp add: handler_defs setter_defs Let_def)
  qed (use event in \<open>simp_all add: handler_defs setter_defs logout_def Let_def\<close>)
qed

section \<open>The session check on mount\<close>

text \<open>
  C1, as the code has it. For every content of the storage area: when the key is
  absent or holds the empty string, the session check returns with \<^verbatim>\<open>isLoading\<close> set to
  false exactly once and the Session absent; when the key holds a JSON text, it returns
  with \<^verbatim>\<open>isLoading\<close> set to false exactly once and the Session equal to the parsed value;
  when the key holds a non-empty string that is not JSON, \<^verbatim>\<open>JSON.parse\<close> throws a
  \<^verbatim>\<open>SyntaxError\<close> that nothing catches: \<^verbatim>\<open>setIsLoading\<close> is never called, \<^verbatim>\<open>isLoading\<close>
  stays true and the Session stays absent.
\<close>

theorem initialize_outcome:
  "(st storage_key = None \<or> st storage_key = Some [] \<longrightarrow>
      (\<exists>w'. mount st = Inr w' \<and> user w' = JNull \<and> isLoading w' = False
            \<and> count_list (trace w') (SetIsLoading False) = 1
            \<and> count_list (trace w') (SetIsLoading True) = 0))
   \<and> (\<forall>stored v. st storage_key = Some stored \<and> stored \<noteq> [] \<and> JSON_parse stored = Some v \<longrightarrow>
      (\<exists>w'. mount st = Inr w' \<and> user w' = v \<and> isLoading w' = False
            \<and> count_list (trace w') (SetIsLoading False) = 1
            \<and> count_list (trace w') (SetIsLoading True) = 0))
   \<and> (\<forall>stored. st storage_key = Some stored \<and> stored \<noteq> [] \<and> JSON_parse stored = None \<longrightarrow>
      (\<exists>w'. mount st = Inl (SyntaxError, w') \<and> user w' = JNull \<and> isLoading w' = True
            \<and> count_list (trace w') (SetIsLoading False) = 0))"
proof (intro conjI impI allI)
  assume "st storage_key = None \<or> st storage_key = Some []"
  then have "localStorage (initial_world st) storage_key = None
             \<or> localStorage (initial_world st) storage_key = Some []"
    by (simp add: initial_world_def)
  from initialize_absent [OF this]
  show "\<exists>w'. mount st = Inr w' \<and> user w' = JNull \<and> isLoading w' = False
            \<and> count_list (trace w') (SetIsLoading False) = 1
            \<and> count_list (trace w') (SetIsLoading True) = 0"
    by (simp add: mount_def initial_world_def)
next
  fix stored v
  assume "st storage_key = Some stored \<and> stored \<noteq> [] \<and> JSON_parse stored = Some v"
  then have "localStorage (initial_world st) storage_key = Some stored" "stored \<noteq> []"
    "JSON_parse stored = Some v"
    by (simp_all add: initial_world_def)
  from initialize_parsed [OF this]
  show "\<exists>w'. mount st = Inr w' \<and> user w' = v \<and> isLoading w' = False
            \<and> count_list (trace w') (SetIsLoading False) = 1
            \<and> count_list (trace w') (SetIsLoading True) = 0"
    by (simp add: mount_def initial_world_def)
next
  fix stored
  assume "st storage_key = Some stored \<and> stored \<noteq> [] \<and> JSON_parse stored = None"
  then have "localStorage (initial_world st) storage_key = Some stored" "stored \<noteq> []"
    "JSON_parse stored = None"
    by (simp_all add: initial_world_def)
  from initialize_malformed [OF this]
  show "\<exists>w'. mount st = Inl (SyntaxError, w') \<and> user w' = JNull \<and> isLoading w' = True
            \<and> count_list (trace w') (SetIsLoading False) = 0"
    by (simp add: mount_def initial_world_def)
qed

text \<open>
  The three outcomes at work: over an empty storage area, over the stored record
  \<^verbatim>\<open>{"email":"a@b.com"}\<close>, and over the stored text \<^verbatim>\<open>undefined\<close>.
\<close>

theorem initialize_outcome_witness:
  "(\<exists>w'. mount Map.empty = Inr w' \<and> user w' = JNull \<and> isLoading w' = False
         \<and> count_list (trace w') (SetIsLoading False) = 1)
   \<and> (\<exists>w'. mount [storage_key \<mapsto> ascii ''{\"email\":\"a@b.com\"}''] = Inr w'
         \<and> user w' = JObj [(ascii ''email'', JStr (ascii ''a@b.com''))]
         \<and> isLoading w' = False
         \<and> count_list (trace w') (SetIsLoading False) = 1)
   \<and> (\<exists>w'. mount [storage_key \<mapsto> ascii ''undefined''] = Inl (SyntaxError, w')
         \<and> user w' = JNull \<and> isLoading w' = True
         \<and> count_list (trace w') (SetIsLoading False) = 0)"
proof (intro conjI)
  from initialize_outcome [of Map.empty]
  show "\<exists>w'. mount Map.empty = Inr w' \<and> user w' = JNull \<and> isLoading w' = False
         \<and> count_list (trace w') (SetIsLoading False) = 1"
    by auto
next
  have "ascii ''{\"email\":\"a@b.com\"}'' \<noteq> []"
    by (simp add: ascii_def)
  with initialize_outcome [of "[storage_key \<mapsto> ascii ''{\"email\":\"a@b.com\"}'']"]
    JSON_parse_example
  show "\<exists>w'. mount [storage_key \<mapsto> ascii ''{\"email\":\"a@b.com\"}''] = Inr w'
         \<and> user w' = JObj [(ascii ''email'', JStr (ascii ''a@b.com''))]
         \<and> isLoading w' = False
         \<and> count_list (trace w') (SetIsLoading False) = 1"
    by auto
next
  have "ascii ''undefined'' \<noteq> []"
    by (simp add: ascii_def)
  with initialize_outcome [of "[storage_key \<mapsto> ascii ''undefined'']"] JSON_parse_undefined
  show "\<exists>w'. mount [storage_key \<mapsto> ascii ''undefined''] = Inl (SyntaxError, w')
         \<and> user w' = JNull \<and> isLoading w' = True
         \<and> count_list (trace w') (SetIsLoading False) = 0"
    by auto
qed

text \<open>
  C1 as stated fails on a malformed record: with the text \<^verbatim>\<open>undefined\<close> under the key,
  the session check ends in the error, and \<^verbatim>\<open>isLoading\<close> is still true and was never
  set.
\<close>

theorem initialize_malformed_counterexample:
  "isl (mount [storage_key \<mapsto> ascii ''undefined''])
   \<and> isLoading (snd (projl (mount [storage_key \<mapsto> ascii ''undefined'']))) = True
   \<and> count_list (trace (snd (projl (mount [storage_key \<mapsto> ascii ''undefined''])))) (SetIsLoading False) = 0"
proof -
  have "ascii ''undefined'' \<noteq> []"
    by (simp add: ascii_def)
  then have "mount [storage_key \<mapsto> ascii ''undefined'']
          = Inl (SyntaxError, (initial_world [storage_key \<mapsto> ascii ''undefined''])
                   \<lparr>trace := [GetItem storage_key]\<rparr>)"
    unfolding mount_def
    by (subst initialize_malformed [where stored = "ascii ''undefined''"])
       (simp_all add: initial_world_def JSON_parse_undefined)
  then show ?thesis
    by (simp add: initial_world_def)
qed

section \<open>login and signup\<close>

text \<open>
  C2. For every email string, \<^verbatim>\<open>login(email)\<close> and \<^verbatim>\<open>signup(email)\<close> each set the
  Session to the record holding \<^verbatim>\<open>email\<close> and nothing else (no \<^verbatim>\<open>name\<close> field), write
  the serialised record to the persisted store and set \<^verbatim>\<open>showAuthModal\<close> to false. Both
  are total functions of the email and the state: there is no failure path.
\<close>

theorem login_signup_session:
  "user (login address w) = JObj [(ascii ''email'', JStr address)]
   \<and> localStorage (login address w) storage_key
       = Some (JSON_stringify [(ascii ''email'', address)])
   \<and> JSON_stringify [(ascii ''email'', address)]
       = ascii ''{\"email\":'' @ QuoteJSONString address @ ascii ''}''
   \<and> get_property (ascii ''name'') [(ascii ''email'', JStr address)] = None
   \<and> showAuthModal (login address w) = False
   \<and> user (signup address w) = JObj [(ascii ''email'', JStr address)]
   \<and> localStorage (signup address w) storage_key
       = Some (JSON_stringify [(ascii ''email'', address)])
   \<and> showAuthModal (signup address w) = False"
  by (simp add: login_def signup_def setter_defs object_of_def Let_def stored_record_text
      email_is_not_name)

section \<open>The dialog and the Session\<close>




section \<open>login and signup are the same operation\<close>

text \<open>
  C4. For every email string and every starting state, \<^verbatim>\<open>login(email)\<close> and
  \<^verbatim>\<open>signup(email)\<close> produce the same state, persisted store included.
\<close>

theorem login_signup_equivalent:
  "login address w = signup address w"
  by (simp add: login_def signup_def)

section \<open>logout\<close>

text \<open>
  C5. For every prior state, \<^verbatim>\<open>logout()\<close> sets the Session to absent and removes the
  persisted record from the store.
\<close>

theorem logout_clears:
  "user (logout w) = JNull \<and> localStorage (logout w) storage_key = None"
  by (simp add: logout_def setter_defs)

text \<open>
  C6. \<^verbatim>\<open>logout()\<close> is idempotent: calling it twice yields the same container state and
  the same store as calling it once. Every other field agrees as well; only the record
  of calls made grows.
\<close>

theorem logout_idempotent:
  "container (logout (logout w)) = container (logout w)
   \<and> localStorage (logout (logout w)) = localStorage (logout w)
   \<and> logout (logout w) = (logout w)\<lparr>trace := trace (logout (logout w))\<rparr>"
  by (simp add: logout_def setter_defs container_def)

section \<open>Install, download and checkout\<close>

text \<open>
  C7. In every state, a click on an install or download link, or on a checkout link,
  loads the fixed external URL in a new browsing context exactly when the page has a
  user (the handlers test \<^verbatim>\<open>user\<close> for truthiness; a \<^verbatim>\<open>User\<close> record is truthy and
  \<^verbatim>\<open>null\<close> is not), and leaves the container as it is. Without a user nothing is loaded,
  \<^verbatim>\<open>authView\<close> becomes the signup view and \<^verbatim>\<open>showAuthModal\<close> becomes true.
\<close>

theorem install_and_checkout_gate:
  "(truthy (user w) \<longrightarrow>
      opened (click_install_navbar w) = opened w @ [(install_url, blank)]
      \<and> container (click_install_navbar w) = container w
      \<and> opened (click_install_hero w) = opened w @ [(install_url, blank)]
      \<and> container (click_install_hero w) = container w
      \<and> opened (click_checkout checkoutUrl w) = opened w @ [(checkoutUrl, blank)]
      \<and> container (click_checkout checkoutUrl w) = container w)
   \<and> (\<not> truthy (user w) \<longrightarrow>
      opened (click_install_navbar w) = opened w
      \<and> authView (click_install_navbar w) = Signup \<and> showAuthModal (click_install_navbar w) = True
      \<and> opened (click_install_hero w) = opened w
      \<and> authView (click_install_hero w) = Signup \<and> showAuthModal (click_install_hero w) = True
      \<and> opened (click_checkout checkoutUrl w) = opened w
      \<and> authView (click_checkout checkoutUrl w) = Signup
      \<and> showAuthModal (click_checkout checkoutUrl w) = True)
   \<and> (is_User (user w) \<longrightarrow> truthy (user w))
   \<and> (user w = JNull \<longrightarrow> \<not> truthy (user w))"
  by (simp add: handler_defs setter_defs container_def Let_def is_User_truthy)

text \<open>
  Both branches: a visitor with no Session, and one who has signed up.
\<close>

theorem install_and_checkout_gate_witness:
  "opened (click_install_navbar mounted_empty) = []
   \<and> authView (click_install_navbar mounted_empty) = Signup
   \<and> showAuthModal (click_install_navbar mounted_empty) = True
   \<and> opened (click_checkout (ascii ''https://example.com/checkout-pro'') mounted_empty) = []
   \<and> showAuthModal (click_checkout (ascii ''https://example.com/checkout-pro'') mounted_empty) = True
   \<and> opened (click_install_hero signed_up) = [(install_url, blank)]
   \<and> opened (click_checkout (ascii ''https://example.com/checkout-pro'') signed_up)
       = [(ascii ''https://example.com/checkout-pro'', blank)]
   \<and> showAuthModal (click_checkout (ascii ''https://example.com/checkout-pro'') signed_up) = False"
proof -
  have a: "user mounted_empty = JNull" "opened mounted_empty = []"
    by (simp_all add: mounted_empty_eq initial_world_def)
  have b: "is_User (user signed_up)" "opened signed_up = []" "showAuthModal signed_up = False"
    by (simp_all add: signed_up_def mounted_empty_eq initial_world_def handler_defs setter_defs
        signup_def login_def object_of_def Let_def ascii_def)
  from a install_and_checkout_gate [of mounted_empty "ascii ''https://example.com/checkout-pro''"]
    b install_and_checkout_gate [of signed_up "ascii ''https://example.com/checkout-pro''"]
  show ?thesis
    by (simp add: container_def)
qed

section \<open>Submitting the form\<close>

text \<open>
  C8. The handler of the form prevents the default action of the event, sets
  \<^verbatim>\<open>loading\<close>, which disables the submit button, and waits on a timer of 1000 ms, the
  container and the store untouched. Its continuation calls \<^verbatim>\<open>login\<close> if the view was
  \<^verbatim>\<open>login\<close> and \<^verbatim>\<open>signup\<close> otherwise, then clears \<^verbatim>\<open>loading\<close> and empties both input
  fields: the button is enabled again only after the Session and the store are written.
  The last part is the whole sequence, for a timer that fires next.
\<close>

theorem handleSubmit_sequence:
  "trace (handleSubmit w) = trace w @ [PreventDefault, SetLoading True, SetTimeout 1000]
   \<and> defaultPrevented (handleSubmit w) = True
   \<and> submit_disabled (handleSubmit w) = True
   \<and> timers (handleSubmit w) = timers w @ [(1000, authView w, email w)]
   \<and> container (handleSubmit w) = container w
   \<and> localStorage (handleSubmit w) = localStorage w
   \<and> handleSubmit_resume (Login, a) w'
       = setPassword [] (setEmail [] (setLoading False (login a w')))
   \<and> handleSubmit_resume (Signup, a) w'
       = setPassword [] (setEmail [] (setLoading False (signup a w')))
   \<and> trace (handleSubmit_resume (v, a) w')
       = trace w' @ [SetUser (JObj [(ascii ''email'', JStr a)]),
                     SetItem storage_key (JSON_stringify [(ascii ''email'', a)]),
                     SetShowAuthModal False, SetLoading False, SetEmail [], SetPassword []]
   \<and> user (handleSubmit_resume (v, a) w') = JObj [(ascii ''email'', JStr a)]
   \<and> submit_disabled (handleSubmit_resume (v, a) w') = False
   \<and> email (handleSubmit_resume (v, a) w') = []
   \<and> password (handleSubmit_resume (v, a) w') = []
   \<and> trace (fire (TimerFire (length (timers w))) (fire FormSubmit w))
       = trace w @ [PreventDefault, SetLoading True, SetTimeout 1000,
                    SetUser (JObj [(ascii ''email'', JStr (email w))]),
                    SetItem storage_key (JSON_stringify [(ascii ''email'', email w)]),
                    SetShowAuthModal False, SetLoading False, SetEmail [], SetPassword []]"
  by (simp add: handler_defs setter_defs container_def login_def signup_def object_of_def Let_def)

section \<open>The flags are not persisted\<close>

text \<open>
  C9. \<^verbatim>\<open>setShowAuthModal\<close> and \<^verbatim>\<open>setAuthView\<close> change their own flag and leave the
  Session, the other flags and the store as they are. No operation and no event writes
  a flag to the store: what each leaves in the store is the store before, with the
  record of the email under the fixed key or with that key removed.
\<close>

theorem flags_not_persisted:
  "user (setShowAuthModal b w) = user w
   \<and> isLoading (setShowAuthModal b w) = isLoading w
   \<and> authView (setShowAuthModal b w) = authView w
   \<and> localStorage (setShowAuthModal b w) = localStorage w
   \<and> showAuthModal (setShowAuthModal b w) = b
   \<and> user (setAuthView v w) = user w
   \<and> isLoading (setAuthView v w) = isLoading w
   \<and> showAuthModal (setAuthView v w) = showAuthModal w
   \<and> localStorage (setAuthView v w) = localStorage w
   \<and> authView (setAuthView v w) = v
   \<and> localStorage (login a w) = (localStorage w)(storage_key \<mapsto> JSON_stringify [(ascii ''email'', a)])
   \<and> localStorage (signup a w) = (localStorage w)(storage_key \<mapsto> JSON_stringify [(ascii ''email'', a)])
   \<and> localStorage (logout w) = (localStorage w)(storage_key := None)
   \<and> localStorage (case initialize w of Inl (e, w') \<Rightarrow> w' | Inr w' \<Rightarrow> w') = localStorage w
   \<and> localStorage (fire ev w)
       = (case ev of
            NavLogoutClick \<Rightarrow> (localStorage w)(storage_key := None)
          | TimerFire i \<Rightarrow>
              (localStorage w)(storage_key \<mapsto>
                 JSON_stringify [(ascii ''email'', snd (snd (timers w ! i)))])
          | _ \<Rightarrow> localStorage w)"
proof -
  have i: "localStorage (case initialize w of Inl (e, w') \<Rightarrow> w' | Inr w' \<Rightarrow> w') = localStorage w"
    by (simp add: initialize_def setter_defs split: option.splits)
  have f: "localStorage (fire ev w)
       = (case ev of
            NavLogoutClick \<Rightarrow> (localStorage w)(storage_key := None)
          | TimerFire i \<Rightarrow>
              (localStorage w)(storage_key \<mapsto>
                 JSON_stringify [(ascii ''email'', snd (snd (timers w ! i)))])
          | _ \<Rightarrow> localStorage w)"
    by (cases ev)
       (simp_all add: handler_defs setter_defs login_def signup_def logout_def Let_def)
  show ?thesis
    unfolding i f
    by (simp add: setter_defs login_def signup_def logout_def Let_def)
qed

section \<open>Persisting and rehydrating\<close>

text \<open>
  C10. For every email string, a fresh container mounted over the store that
  \<^verbatim>\<open>login(email)\<close>, or \<^verbatim>\<open>signup(email)\<close>, has written ends its session check with the
  Session that the operation produced: parsing the serialised record gives the record
  back.
\<close>

theorem persist_rehydrate_roundtrip:
  "mount (localStorage (login a w))
     = Inr ((initial_world (localStorage (login a w)))
              \<lparr>user := user (login a w), isLoading := False,
               trace := [GetItem storage_key, SetUser (user (login a w)), SetIsLoading False]\<rparr>)
   \<and> mount (localStorage (signup a w))
     = Inr ((initial_world (localStorage (signup a w)))
              \<lparr>user := user (signup a w), isLoading := False,
               trace := [GetItem storage_key, SetUser (user (signup a w)), SetIsLoading False]\<rparr>)
   \<and> user (login a w) = JObj [(ascii ''email'', JStr a)]
   \<and> JSON_parse (JSON_stringify [(ascii ''email'', a)]) = Some (JObj [(ascii ''email'', JStr a)])"
proof -
  let ?t = "JSON_stringify [(ascii ''email'', a)]"
  let ?st = "localStorage (login a w)"
  have s: "?st storage_key = Some ?t"
    by (simp add: login_def setter_defs Let_def)
  have n: "?t \<noteq> []"
    by (simp add: JSON_stringify_def)
  have p: "JSON_parse ?t = Some (user (login a w))"
    by (simp add: JSON_parse_stringify_single login_def setter_defs Let_def)
  have "localStorage (initial_world ?st) storage_key = Some ?t"
    using s by (simp add: initial_world_def)
  from initialize_parsed [OF this n p]
  have "mount ?st
     = Inr ((initial_world ?st)
              \<lparr>user := user (login a w), isLoading := False,
               trace := [GetItem storage_key, SetUser (user (login a w)), SetIsLoading False]\<rparr>)"
    by (simp add: mount_def initial_world_def)
  moreover have "signup a w = login a w"
    by (simp add: login_def signup_def)
  moreover have "user (login a w) = JObj [(ascii ''email'', JStr a)]"
    by (simp add: login_def setter_defs object_of_def Let_def)
  moreover have "JSON_parse ?t = Some (JObj [(ascii ''email'', JStr a)])"
    by (simp add: JSON_parse_stringify_single object_of_def)
  ultimately show ?thesis
    by simp
qed

end
